theory Spec2Isabelle
  imports Complex_Main
begin

section \<open>Python values used by the driver\<close>

text \<open>
  The driver \<^verbatim>\<open>experiments/logreg.py\<close> compares its \<^verbatim>\<open>exchange\<close> argument with string
  literals, once with \<^verbatim>\<open>in\<close> and once with \<^verbatim>\<open>is\<close>. The two operators differ on
  objects that are equal but not identical, so a Python \<^verbatim>\<open>str\<close> is modelled with its
  identity: a literal of the program text is an interned constant (one object per
  content), any other string (read from the command line, concatenated, decoded) is an
  object of its own at some address.
\<close>

datatype pystr = Interned string | Allocated nat string

fun chars :: "pystr \<Rightarrow> string" where
  "chars (Interned s) = s"
| "chars (Allocated a s) = s"

text \<open>\<^verbatim>\<open>a == b\<close> on strings: equal contents.\<close>

definition py_eq :: "pystr \<Rightarrow> pystr \<Rightarrow> bool" where
  "py_eq a b = (chars a = chars b)"

text \<open>\<^verbatim>\<open>a is b\<close>: the same object.\<close>

fun py_is :: "pystr \<Rightarrow> pystr \<Rightarrow> bool" where
  "py_is (Interned s) (Interned t) = (s = t)"
| "py_is (Allocated a s) (Allocated b t) = (a = b \<and> s = t)"
| "py_is _ _ = False"

text \<open>\<^verbatim>\<open>a in xs\<close> on a list: some element is identical or equal to \<^verbatim>\<open>a\<close>.\<close>

definition py_in :: "pystr \<Rightarrow> pystr list \<Rightarrow> bool" where
  "py_in a xs = list_ex (\<lambda>e. py_is e a \<or> py_eq e a) xs"

section \<open>The sampler's exchange flags (\<^verbatim>\<open>run\<close>, lines 69 to 72)\<close>

text \<open>
  \<^verbatim>\<open>exchange_particles=exchange in ['all_particles', 'all_scores']\<close> and
  \<^verbatim>\<open>exchange_scores=exchange is 'all_scores'\<close>.
\<close>

definition exchange_particles_of :: "pystr \<Rightarrow> bool" where
  "exchange_particles_of exchange =
     py_in exchange [Interned ''all_particles'', Interned ''all_scores'']"

definition exchange_scores_of :: "pystr \<Rightarrow> bool" where
  "exchange_scores_of exchange = py_is exchange (Interned ''all_scores'')"

section \<open>Shards (\<^verbatim>\<open>run\<close>, lines 37 to 52)\<close>

text \<open>
  \<^verbatim>\<open>samples_per_shard = int(x_train.shape[0] / num_shards)\<close>: the quotient of two
  non-negative integers, truncated. Row counts and ranks are natural numbers; the
  division by a zero shard count, which raises in Python, is a branch of \<open>run\<close> below.
\<close>

definition samples_per_shard :: "nat \<Rightarrow> nat \<Rightarrow> nat" where
  "samples_per_shard n num_shards = n div num_shards"

text \<open>\<^verbatim>\<open>data_idx_range\<close> closes over \<^verbatim>\<open>samples_per_shard\<close>; here it is the first argument.\<close>

definition data_idx_range :: "nat \<Rightarrow> nat \<Rightarrow> nat \<times> nat" where
  "data_idx_range sps rank = (sps * rank, sps * (rank + 1))"

text \<open>\<^verbatim>\<open>xs[a:b]\<close> with non-negative bounds: Python clamps both to the length.\<close>

definition py_slice :: "'a list \<Rightarrow> nat \<Rightarrow> nat \<Rightarrow> 'a list" where
  "py_slice xs a b = drop a (take b xs)"

text \<open>The rows \<^verbatim>\<open>logp\<close> reads for a shard: \<^verbatim>\<open>x_train[shard_start_idx:shard_end_idx]\<close>.\<close>

definition shard_rows :: "'a list \<Rightarrow> nat \<Rightarrow> nat \<Rightarrow> 'a list" where
  "shard_rows rows num_shards shard =
     (case data_idx_range (samples_per_shard (length rows) num_shards) shard of
        (shard_start_idx, shard_end_idx) \<Rightarrow> py_slice rows shard_start_idx shard_end_idx)"

text \<open>The indices of those rows, in order: the slice stops at the end of the data.\<close>

definition shard_indices :: "nat \<Rightarrow> nat \<Rightarrow> nat \<Rightarrow> nat list" where
  "shard_indices n num_shards shard =
     (case data_idx_range (samples_per_shard n num_shards) shard of
        (shard_start_idx, shard_end_idx) \<Rightarrow> [shard_start_idx ..< min shard_end_idx n])"

section \<open>Tensors of reals\<close>

text \<open>
  A one-dimensional tensor is a list of reals and a matrix is the list of its rows; in
  this part the arithmetic of the tensors is that of the real numbers (the kernel is
  given in the 32-bit floats of the source further below). Both arguments of a pointwise
  operation have the same shape in this program (particles have shape \<^verbatim>\<open>(d,)\<close>, the rows
  of the data have \<^verbatim>\<open>x_train.shape[1]\<close> entries).
\<close>

definition dot :: "real list \<Rightarrow> real list \<Rightarrow> real" where
  "dot u v = (\<Sum>(a, b) \<leftarrow> zip u v. a * b)"

text \<open>\<^verbatim>\<open>torch.matmul(m, w)\<close> of a matrix and a vector: one inner product per row.\<close>

definition matmul :: "real list list \<Rightarrow> real list \<Rightarrow> real list" where
  "matmul m w = map (\<lambda>row. dot row w) m"

text \<open>\<^verbatim>\<open>torch.dist(x, y, p=2)\<close>: the Euclidean norm of the difference.\<close>

definition dist_p2 :: "real list \<Rightarrow> real list \<Rightarrow> real" where
  "dist_p2 x y = sqrt (\<Sum>(a, b) \<leftarrow> zip x y. (a - b)\<^sup>2)"

text \<open>The squared Euclidean distance, written out.\<close>

definition sqdist :: "real list \<Rightarrow> real list \<Rightarrow> real" where
  "sqdist x y = (\<Sum>(a, b) \<leftarrow> zip x y. (a - b)\<^sup>2)"

section \<open>The kernel (\<^verbatim>\<open>run\<close>, lines 61 and 62)\<close>

text \<open>
  \<^verbatim>\<open>def kernel(x, y): return torch.exp(-1.*torch.dist(x, y, p=2)**2)\<close>, under the
  name \<open>kernel_fn\<close> (HOL has a constant \<open>kernel\<close> of its own). This is the function
  over the reals; \<open>kernel_f32\<close> below is the same computation in the floats of the
  source.
\<close>

definition kernel_fn :: "real list \<Rightarrow> real list \<Rightarrow> real" where
  "kernel_fn x y = exp (- 1 * (dist_p2 x y)\<^sup>2)"

text \<open>The bandwidth of every step: \<^verbatim>\<open>dist_sampler.make_step(stepsize, h=10.0)\<close>, line 83.\<close>

definition step_bandwidth :: real where
  "step_bandwidth = 10"

section \<open>The kernel in 32-bit floats\<close>

text \<open>
  The particles are tensors of \<^verbatim>\<open>torch.float32\<close> (\<^verbatim>\<open>Normal(0, 1).sample\<close>, line 66), and the
  kernel computes in that type. A value is a finite real, an infinity or NaN; the two
  zeros are not told apart.
\<close>

datatype f32 = Finite real | PlusInf | MinusInf | NaN

text \<open>Rounding to the nearest integer, a tie to the even one.\<close>

definition rne :: "real \<Rightarrow> int" where
  "rne v = (let f = \<lfloor>v\<rfloor>; t = v - of_int f
            in if t < 1 / 2 then f else if 1 / 2 < t then f + 1
               else if even f then f else f + 1)"

text \<open>
  The binary exponent of a real, not below that of the subnormal numbers, and the
  distance of neighbouring floats there: 24 significant bits.
\<close>

definition expo :: "real \<Rightarrow> int" where
  "expo v = (if v = 0 then - 126 else max \<lfloor>log 2 \<bar>v\<bar>\<rfloor> (- 126))"

definition ulp :: "real \<Rightarrow> real" where
  "ulp v = 2 powr (of_int (expo v) - 23)"

text \<open>
  The float nearest to a real, a tie to the even significand; what rounds to
  \<open>2 ^ 128\<close> or beyond is an infinity.
\<close>

definition round32 :: "real \<Rightarrow> f32" where
  "round32 v =
     (let r = of_int (rne (v / ulp v)) * ulp v
      in if 2 ^ 128 \<le> r then PlusInf else if r \<le> - (2 ^ 128) then MinusInf else Finite r)"

text \<open>
  The operations the kernel uses. Each returns the exact result rounded to the nearest
  float, with the infinities and NaN of IEEE 754; this is assumed of \<^verbatim>\<open>torch.exp\<close> too.
\<close>

fun fsub :: "f32 \<Rightarrow> f32 \<Rightarrow> f32" where
  "fsub (Finite a) (Finite b) = round32 (a - b)"
| "fsub NaN _ = NaN"
| "fsub _ NaN = NaN"
| "fsub PlusInf PlusInf = NaN"
| "fsub MinusInf MinusInf = NaN"
| "fsub PlusInf _ = PlusInf"
| "fsub MinusInf _ = MinusInf"
| "fsub (Finite a) PlusInf = MinusInf"
| "fsub (Finite a) MinusInf = PlusInf"

fun fadd :: "f32 \<Rightarrow> f32 \<Rightarrow> f32" where
  "fadd (Finite a) (Finite b) = round32 (a + b)"
| "fadd NaN _ = NaN"
| "fadd _ NaN = NaN"
| "fadd PlusInf MinusInf = NaN"
| "fadd MinusInf PlusInf = NaN"
| "fadd PlusInf _ = PlusInf"
| "fadd MinusInf _ = MinusInf"
| "fadd (Finite a) PlusInf = PlusInf"
| "fadd (Finite a) MinusInf = MinusInf"

text \<open>An infinity of the given sign times a finite number.\<close>

fun fmul_inf :: "bool \<Rightarrow> real \<Rightarrow> f32" where
  "fmul_inf positive a =
     (if a = 0 then NaN
      else if (0 < a) = positive then PlusInf else MinusInf)"

fun fmul :: "f32 \<Rightarrow> f32 \<Rightarrow> f32" where
  "fmul (Finite a) (Finite b) = round32 (a * b)"
| "fmul NaN _ = NaN"
| "fmul _ NaN = NaN"
| "fmul PlusInf PlusInf = PlusInf"
| "fmul MinusInf MinusInf = PlusInf"
| "fmul PlusInf MinusInf = MinusInf"
| "fmul MinusInf PlusInf = MinusInf"
| "fmul PlusInf (Finite b) = fmul_inf True b"
| "fmul MinusInf (Finite b) = fmul_inf False b"
| "fmul (Finite a) PlusInf = fmul_inf True a"
| "fmul (Finite a) MinusInf = fmul_inf False a"

fun fsqrt :: "f32 \<Rightarrow> f32" where
  "fsqrt (Finite a) = (if a < 0 then NaN else round32 (sqrt a))"
| "fsqrt PlusInf = PlusInf"
| "fsqrt MinusInf = NaN"
| "fsqrt NaN = NaN"

fun fexp :: "f32 \<Rightarrow> f32" where
  "fexp (Finite a) = round32 (exp a)"
| "fexp PlusInf = PlusInf"
| "fexp MinusInf = Finite 0"
| "fexp NaN = NaN"

text \<open>The negative of a float.\<close>

fun fneg :: "f32 \<Rightarrow> f32" where
  "fneg (Finite a) = Finite (- a)"
| "fneg PlusInf = MinusInf"
| "fneg MinusInf = PlusInf"
| "fneg NaN = NaN"

text \<open>
  \<^verbatim>\<open>torch.dist(x, y, p=2)\<close>: the differences, their squares summed in the order of the
  entries, the square root.
\<close>

definition dist_f32 :: "f32 list \<Rightarrow> f32 list \<Rightarrow> f32" where
  "dist_f32 x y = fsqrt (foldl fadd (Finite 0) (map (\<lambda>c. fmul c c) (map2 fsub x y)))"

text \<open>\<^verbatim>\<open>torch.exp(-1.*torch.dist(x, y, p=2)**2)\<close>\<close>

definition kernel_f32 :: "f32 list \<Rightarrow> f32 list \<Rightarrow> f32" where
  "kernel_f32 x y = fexp (fmul (Finite (- 1)) (fmul (dist_f32 x y) (dist_f32 x y)))"

text \<open>Classes of values: a finite number; at least 0; at most 0; anything but NaN.\<close>

fun is_finite :: "f32 \<Rightarrow> bool" where
  "is_finite (Finite a) = True"
| "is_finite _ = False"

fun nonneg :: "f32 \<Rightarrow> bool" where
  "nonneg (Finite a) = (0 \<le> a)"
| "nonneg PlusInf = True"
| "nonneg _ = False"

fun nonpos :: "f32 \<Rightarrow> bool" where
  "nonpos (Finite a) = (a \<le> 0)"
| "nonpos MinusInf = True"
| "nonpos _ = False"

fun not_nan :: "f32 \<Rightarrow> bool" where
  "not_nan NaN = False"
| "not_nan _ = True"

section \<open>The log-density (\<^verbatim>\<open>run\<close>, lines 39 to 59)\<close>

datatype error = UsageError | ZeroDivisionError | RuntimeError | NameError

text \<open>
  The training split: \<^verbatim>\<open>x_train\<close> has one row of \<open>nfeatures\<close> (\<^verbatim>\<open>x_train.shape[1]\<close>)
  entries per instance, \<^verbatim>\<open>t_train\<close> one label per instance.
\<close>

record dataset =
  x_train :: "real list list"
  t_train :: "real list"
  nfeatures :: nat

text \<open>
  \<^verbatim>\<open>Gamma(concentration, rate).log_prob(value)\<close> of torch.distributions, for a
  concentration that is a positive integer \<open>k\<close> (the driver's is 1), where the
  log-gamma function is the logarithm of \<open>(k - 1)!\<close>.
\<close>

definition gamma_log_prob :: "nat \<Rightarrow> real \<Rightarrow> real \<Rightarrow> real" where
  "gamma_log_prob concentration rate v =
     real concentration * ln rate + (real concentration - 1) * ln v - rate * v
       - ln (fact (concentration - 1))"

text \<open>
  \<^verbatim>\<open>MultivariateNormal(loc, covariance).log_prob(value)\<close> of torch.distributions, for a
  diagonal covariance matrix given by its diagonal: the Cholesky factor has the square
  roots on its diagonal, and the result is
  \<^verbatim>\<open>-0.5 * (n * log(2 * pi) + M) - half_log_det\<close> with \<open>M\<close> the squared Mahalanobis
  distance and \<^verbatim>\<open>half_log_det\<close> the sum of the logarithms of the factor's diagonal.
\<close>

definition mvn_log_prob :: "real list \<Rightarrow> real list \<Rightarrow> real list \<Rightarrow> real" where
  "mvn_log_prob loc cov_diag v =
     - (1 / 2) * (real (length loc) * ln (2 * pi)
                   + (\<Sum>(delta, c) \<leftarrow> zip (map2 (-) v loc) cov_diag. delta\<^sup>2 / c))
       - (\<Sum>c \<leftarrow> cov_diag. ln (sqrt c))"

text \<open>\<^verbatim>\<open>alpha_prior = Gamma(1, 1)\<close>\<close>

definition alpha_prior_log_prob :: "real \<Rightarrow> real" where
  "alpha_prior_log_prob alpha = gamma_log_prob 1 1 alpha"

text \<open>
  \<^verbatim>\<open>w_prior = lambda alpha: MultivariateNormal(torch.zeros(x_train.shape[1]),
  torch.eye(x_train.shape[1]) / alpha)\<close>: the covariance is diagonal, every diagonal
  entry is \<open>1 / alpha\<close>.
\<close>

definition w_prior_log_prob :: "nat \<Rightarrow> real \<Rightarrow> real list \<Rightarrow> real" where
  "w_prior_log_prob n alpha w = mvn_log_prob (replicate n 0) (replicate n (1 / alpha)) w"

text \<open>
  \<^verbatim>\<open>t_train_local * x_train_local\<close>: the label column broadcast over the features, so
  that row \<open>i\<close> is scaled by label \<open>i\<close>.
\<close>

definition scale_rows :: "real list \<Rightarrow> real list list \<Rightarrow> real list list" where
  "scale_rows ts rows = map2 (\<lambda>t row. map (\<lambda>a. t * a) row) ts rows"

text \<open>
  \<^verbatim>\<open>logp(shard, x)\<close>. The particle is indexed at 0 and its slice \<^verbatim>\<open>x[1:3]\<close> reshaped to
  \<^verbatim>\<open>(2,)\<close>, which fails on fewer than three entries; the product with \<open>w\<close> (and the
  prior on \<open>w\<close>) fails unless the data has two features. The shard count of the closure
  is the second argument. The value is the one of real arithmetic: the rounding of the
  32-bit floats of the source, and the infinities and NaN they give on overflow and
  underflow, are not part of this model, and nothing below is stated about the value.
\<close>

definition logp :: "dataset \<Rightarrow> nat \<Rightarrow> nat \<Rightarrow> real list \<Rightarrow> error + real" where
  "logp ds num_shards shard x =
     (if length x < 3 \<or> nfeatures ds \<noteq> 2 then Inl RuntimeError
      else
        let x_train_local = shard_rows (x_train ds) num_shards shard;
            t_train_local = shard_rows (t_train ds) num_shards shard;
            alpha = exp (x ! 0);
            w = py_slice x 1 3;
            logp0 = alpha_prior_log_prob alpha;
            logp1 = logp0 + w_prior_log_prob (nfeatures ds) alpha w;
            logp2 = logp1 +
              - (\<Sum>m \<leftarrow> matmul (scale_rows t_train_local x_train_local) w.
                   ln (1 + exp (- 1 * m)))
        in Inr logp2)"

section \<open>The initial population (\<^verbatim>\<open>run\<close>, lines 24 and 64 to 67)\<close>

text \<open>
  The state of torch's global generator is the seed it was last given and the number of
  values drawn since. What the generator yields is a parameter of the model:
  \<open>normal s i\<close> is draw number \<open>i\<close> of \<^verbatim>\<open>Normal(0, 1)\<close> after seeding with \<open>s\<close>.
\<close>

type_synonym generator = "int \<times> nat"

definition manual_seed :: "int \<Rightarrow> generator \<Rightarrow> generator" where
  "manual_seed s g = (s, 0)"

definition draw :: "(int \<Rightarrow> nat \<Rightarrow> real) \<Rightarrow> generator \<Rightarrow> real \<times> generator" where
  "draw normal g = (normal (fst g) (snd g), (fst g, Suc (snd g)))"

text \<open>\<^verbatim>\<open>q.sample((n, 1))\<close>: a column of \<open>n\<close> draws.\<close>

fun sample :: "(int \<Rightarrow> nat \<Rightarrow> real) \<Rightarrow> nat \<Rightarrow> generator \<Rightarrow> real list \<times> generator" where
  "sample normal 0 g = ([], g)"
| "sample normal (Suc n) g =
     (case draw normal g of (v, g1) \<Rightarrow>
        (case sample normal n g1 of (vs, g2) \<Rightarrow> (v # vs, g2)))"

definition d :: nat where
  "d = 3"

text \<open>\<^verbatim>\<open>[make_sample() for _ in range(n)]\<close>\<close>

fun make_samples :: "(int \<Rightarrow> nat \<Rightarrow> real) \<Rightarrow> nat \<Rightarrow> generator \<Rightarrow> real list list \<times> generator" where
  "make_samples normal 0 g = ([], g)"
| "make_samples normal (Suc n) g =
     (case sample normal d g of (c, g1) \<Rightarrow>
        (case make_samples normal n g1 of (cs, g2) \<Rightarrow> (c # cs, g2)))"

text \<open>
  \<^verbatim>\<open>torch.cat([...], dim=1).t()\<close>: the columns side by side, transposed, so that particle
  \<open>j\<close> is sample \<open>j\<close>. \<^verbatim>\<open>torch.cat\<close> raises on an empty list, which is what
  \<^verbatim>\<open>range(nparticles)\<close> gives for a count that is not positive.
\<close>

definition init_particles ::
  "(int \<Rightarrow> nat \<Rightarrow> real) \<Rightarrow> int \<Rightarrow> generator \<Rightarrow> error + (real list list \<times> generator)" where
  "init_particles normal nparticles g =
     (if nparticles \<le> 0 then Inl RuntimeError
      else Inr (make_samples normal (nat nparticles) g))"

section \<open>The sampler\<close>

text \<open>
  Modelled from the spec: the class \<^verbatim>\<open>DistSampler\<close> of the package \<^verbatim>\<open>dsvgd\<close>, which the
  driver imports and whose source is not part of the files at hand. The record holds
  what the constructor is given (section 6, construction interface; section 4.3, state);
  \<open>make_step\<close> follows the step operation of section 4.3.
\<close>

record sampler =
  ds_rank :: nat
  ds_num_shards :: nat
  ds_logp :: "real list \<Rightarrow> error + real"
  ds_kernel :: "real list \<Rightarrow> real list \<Rightarrow> real"
  ds_particles :: "real list list"
  ds_exchange_particles :: bool
  ds_exchange_scores :: bool
  ds_include_wasserstein :: bool

definition DistSampler ::
  "nat \<Rightarrow> nat \<Rightarrow> (real list \<Rightarrow> error + real) \<Rightarrow> (real list \<Rightarrow> real list \<Rightarrow> real) \<Rightarrow> real list list
     \<Rightarrow> bool \<Rightarrow> bool \<Rightarrow> bool \<Rightarrow> sampler" where
  "DistSampler rank num_shards f k particles exchange_particles exchange_scores
     include_wasserstein =
     \<lparr>ds_rank = rank, ds_num_shards = num_shards, ds_logp = f, ds_kernel = k,
      ds_particles = particles, ds_exchange_particles = exchange_particles,
      ds_exchange_scores = exchange_scores, ds_include_wasserstein = include_wasserstein\<rparr>"

text \<open>
  Modelled from the spec: what the step computes with, none of it in the files at hand.
  \<open>nm_score r y\<close> is the score of particle \<open>y\<close> on the shard of rank \<open>r\<close> (the gradient of
  that rank's log-density), \<open>nm_kernel y x h\<close> the kernel of the sampler at bandwidth
  \<open>h\<close>, \<open>nm_grad_kernel y x h\<close> its gradient in the first argument, and
  \<open>nm_received l r\<close> the population that rank \<open>r\<close> broadcasts in iteration \<open>l\<close>.
\<close>

record numerics =
  nm_score :: "nat \<Rightarrow> real list \<Rightarrow> real list"
  nm_kernel :: "real list \<Rightarrow> real list \<Rightarrow> real \<Rightarrow> real"
  nm_grad_kernel :: "real list \<Rightarrow> real list \<Rightarrow> real \<Rightarrow> real list"
  nm_received :: "nat \<Rightarrow> nat \<Rightarrow> real list list"

definition vadd :: "real list \<Rightarrow> real list \<Rightarrow> real list" where
  "vadd u v = map2 (+) u v"

definition smult :: "real \<Rightarrow> real list \<Rightarrow> real list" where
  "smult c v = map (\<lambda>a. c * a) v"

text \<open>The sum of vectors of \<open>n\<close> entries.\<close>

definition vsum :: "nat \<Rightarrow> real list list \<Rightarrow> real list" where
  "vsum n vs = foldr vadd vs (replicate n 0)"

text \<open>
  Modelled from the spec (section 4.3, step 2): the comparison population \<open>Y\<close>, every
  particle with the rank that owns it. Without particle exchange it is the worker's own
  population; with it, the populations of all ranks, the worker's own and the received
  ones.
\<close>

definition comparison_population :: "numerics \<Rightarrow> nat \<Rightarrow> sampler \<Rightarrow> (nat \<times> real list) list" where
  "comparison_population nm l s =
     (if ds_exchange_particles s
      then concat (map (\<lambda>r. map (Pair r)
                               (if r = ds_rank s then ds_particles s else nm_received nm l r))
                       [0 ..< ds_num_shards s])
      else map (Pair (ds_rank s)) (ds_particles s))"

text \<open>
  Modelled from the spec (section 4.3, steps 2 and 3): the score that enters the update
  for a member of \<open>Y\<close> is the one its owner computed under score exchange, the
  worker's own otherwise.
\<close>

definition score_used :: "numerics \<Rightarrow> sampler \<Rightarrow> nat \<times> real list \<Rightarrow> real list" where
  "score_used nm s oy =
     (if ds_exchange_scores s then nm_score nm (fst oy) (snd oy)
      else nm_score nm (ds_rank s) (snd oy))"

text \<open>
  Modelled from the spec (section 4.3, step 3): the update direction of particle \<open>x\<close>,
  \<open>(1/|Y|) * \<Sum> y \<in> Y. kernel(y, x, h) * score(y) + \<nabla>\<^sub>y kernel(y, x, h)\<close>.
\<close>

definition phi_hat :: "numerics \<Rightarrow> sampler \<Rightarrow> (nat \<times> real list) list \<Rightarrow> real \<Rightarrow> real list \<Rightarrow> real list" where
  "phi_hat nm s ys h x =
     smult (1 / real (length ys))
       (vsum (length x)
          (map (\<lambda>oy. vadd (smult (nm_kernel nm (snd oy) x h) (score_used nm s oy))
                            (nm_grad_kernel nm (snd oy) x h)) ys))"

text \<open>
  Modelled from the spec (section 4.3, steps 3 and 5): every local particle moves by
  \<open>stepsize\<close> times its update direction, all directions taken at the population before
  the step. The Wasserstein statistic of step 4 is a diagnostic that does not feed back
  into the population and is left out. \<open>l\<close> is the number of the iteration.
\<close>

definition make_step :: "numerics \<Rightarrow> nat \<Rightarrow> sampler \<Rightarrow> real \<Rightarrow> real \<Rightarrow> sampler" where
  "make_step nm l s stepsize h =
     s\<lparr>ds_particles :=
         map (\<lambda>x. vadd x (smult stepsize (phi_hat nm s (comparison_population nm l s) h x)))
             (ds_particles s)\<rparr>"

section \<open>The driver (\<^verbatim>\<open>run\<close> and \<^verbatim>\<open>cli\<close>)\<close>

text \<open>
  What a run of one worker leaves behind: the sampler it constructed, if it got that
  far, the number of calls of \<^verbatim>\<open>make_step\<close>, the rows \<^verbatim>\<open>(timestep, value)\<close> appended to
  \<^verbatim>\<open>data\<close>, the sampler at the end, and the exception that ended the run, if any.
\<close>

record run_result =
  constructed :: "sampler option"
  steps_made :: nat
  data :: "(int \<times> real list) list"
  final :: "sampler option"
  raised :: "error option"

text \<open>
  The loop of lines 75 to 83, \<open>n\<close> iterations from iteration \<open>l\<close> on: the rows of the
  population are saved, then the step is made. The third component of the state counts
  the steps.
\<close>

fun step_loop ::
  "numerics \<Rightarrow> real \<Rightarrow> nat \<Rightarrow> nat \<Rightarrow> sampler \<times> (int \<times> real list) list \<times> nat
     \<Rightarrow> sampler \<times> (int \<times> real list) list \<times> nat" where
  "step_loop nm stepsize 0 l st = st"
| "step_loop nm stepsize (Suc n) l (s, rows, steps) =
     step_loop nm stepsize n (Suc l)
       (make_step nm l s stepsize step_bandwidth,
        rows @ map (Pair (int l)) (ds_particles s),
        Suc steps)"

text \<open>
  What a run finds when it starts: the training split of the benchmark file, the state
  of the global generator, the draws of the generator, and the numerics of the sampler.
\<close>

record environment =
  env_dataset :: dataset
  env_generator :: generator
  env_normal :: "int \<Rightarrow> nat \<Rightarrow> real"
  env_numerics :: numerics

text \<open>
  \<^verbatim>\<open>run(rank, num_shards, nparticles, niter, stepsize, exchange, wasserstein)\<close>. The
  division of line 37 raises for a shard count of zero; the population is sampled after
  seeding with the rank; after the loop the rows of the final population are saved under
  \<^verbatim>\<open>l+1\<close>, where \<^verbatim>\<open>l\<close> is unbound if the loop body never ran.
\<close>

definition run ::
  "environment \<Rightarrow> nat \<Rightarrow> nat \<Rightarrow> int \<Rightarrow> int \<Rightarrow> real \<Rightarrow> pystr \<Rightarrow> bool \<Rightarrow> run_result" where
  "run env rank num_shards nparticles niter stepsize exchange wasserstein =
     (let g = manual_seed (int rank) (env_generator env) in
      if num_shards = 0
      then \<lparr>constructed = None, steps_made = 0, data = [], final = None,
            raised = Some ZeroDivisionError\<rparr>
      else
        case init_particles (env_normal env) nparticles g of
          Inl e \<Rightarrow> \<lparr>constructed = None, steps_made = 0, data = [], final = None,
                    raised = Some e\<rparr>
        | Inr (particles, g') \<Rightarrow>
            let dist_sampler =
                  DistSampler rank num_shards
                    (\<lambda>x. logp (env_dataset env) num_shards rank x) kernel_fn particles
                    (exchange_particles_of exchange) (exchange_scores_of exchange) wasserstein
            in case step_loop (env_numerics env) stepsize (nat niter) 0 (dist_sampler, [], 0) of
                 (s, rows, steps) \<Rightarrow>
                   if niter \<le> 0 \<and> ds_particles s \<noteq> []
                   then \<lparr>constructed = Some dist_sampler, steps_made = steps, data = rows,
                         final = Some s, raised = Some NameError\<rparr>
                   else \<lparr>constructed = Some dist_sampler, steps_made = steps,
                         data = rows @ map (Pair niter) (ds_particles s),
                         final = Some s, raised = None\<rparr>)"

text \<open>
  The options of the command line as click hands them to \<^verbatim>\<open>cli\<close>, and the checks click
  makes before it does: \<^verbatim>\<open>--nproc\<close> within \<^verbatim>\<open>IntRange(0, 32)\<close>, \<^verbatim>\<open>--exchange\<close> equal to
  one of the choices. The other options are converted to their types and not checked.
\<close>

record options =
  opt_nproc :: int
  opt_nparticles :: int
  opt_niter :: int
  opt_stepsize :: real
  opt_exchange :: pystr
  opt_wasserstein :: bool

definition exchange_choices :: "pystr list" where
  "exchange_choices = [Interned ''partitions'', Interned ''all_particles'', Interned ''all_scores'']"

text \<open>
  \<^verbatim>\<open>cli\<close>: one run as rank 0 of 1 when \<^verbatim>\<open>nproc == 1\<close>, else one process per rank, each
  calling \<^verbatim>\<open>run\<close> with its rank and the world size \<^verbatim>\<open>nproc\<close>.
\<close>

definition cli :: "environment \<Rightarrow> options \<Rightarrow> error + run_result list" where
  "cli env opts =
     (if opt_nproc opts < 0 \<or> 32 < opt_nproc opts then Inl UsageError
      else if \<not> py_in (opt_exchange opts) exchange_choices then Inl UsageError
      else if opt_nproc opts = 1
      then Inr [run env 0 1 (opt_nparticles opts) (opt_niter opts) (opt_stepsize opts)
                  (opt_exchange opts) (opt_wasserstein opts)]
      else Inr (map (\<lambda>rank. run env rank (nat (opt_nproc opts)) (opt_nparticles opts)
                               (opt_niter opts) (opt_stepsize opts) (opt_exchange opts)
                               (opt_wasserstein opts))
                    [0 ..< nat (opt_nproc opts)]))"

section \<open>Auxiliary notions and a small instance\<close>

text \<open>A worker without peers: rank 0 of one shard, as \<^verbatim>\<open>cli\<close> starts it for \<^verbatim>\<open>nproc == 1\<close>.\<close>

definition alone :: "sampler \<Rightarrow> bool" where
  "alone s \<longleftrightarrow> ds_rank s = 0 \<and> ds_num_shards s = 1"

text \<open>Two numerics that differ at most in the populations received from peers.\<close>

definition same_numerics :: "numerics \<Rightarrow> numerics \<Rightarrow> bool" where
  "same_numerics nm nm' \<longleftrightarrow> nm_score nm = nm_score nm' \<and> nm_kernel nm = nm_kernel nm'
     \<and> nm_grad_kernel nm = nm_grad_kernel nm'"

text \<open>
  A small instance on which the definitions are evaluated: a training split of one row,
  a generator whose draws are all 0, constant scores, and peers that broadcast one
  particle.
\<close>

definition example_numerics :: numerics where
  "example_numerics =
     \<lparr>nm_score = (\<lambda>r y. [1, 1, 1]), nm_kernel = (\<lambda>y x h. kernel_fn y x),
      nm_grad_kernel = (\<lambda>y x h. [0, 0, 0]), nm_received = (\<lambda>l r. [[1, 0, 0]])\<rparr>"

definition example_env :: environment where
  "example_env =
     \<lparr>env_dataset = \<lparr>x_train = [[1, 2]], t_train = [1], nfeatures = 2\<rparr>,
      env_generator = (0, 0), env_normal = (\<lambda>s i. 0), env_numerics = example_numerics\<rparr>"

section \<open>Strings and the exchange flags\<close>

lemma py_is_Interned: "py_is e (Interned s) \<longleftrightarrow> e = Interned s"
  by (cases e) auto

lemma exchange_scores_of_iff: "exchange_scores_of e \<longleftrightarrow> e = Interned ''all_scores''"
  by (simp add: exchange_scores_of_def py_is_Interned)

lemma exchange_particles_of_iff:
  "exchange_particles_of e \<longleftrightarrow> chars e = ''all_particles'' \<or> chars e = ''all_scores''"
  by (cases e) (auto simp add: exchange_particles_of_def py_in_def py_eq_def)

text \<open>
  C1. The claim: the sampler has score exchange enabled exactly when the exchange
  argument equals the string \<^verbatim>\<open>'all_scores'\<close> (and particle exchange enabled then too).
  The driver tests identity, not equality: for a string that equals \<^verbatim>\<open>'all_scores'\<close>
  but is an object of its own, as the text of a command-line argument is, particle
  exchange is enabled and score exchange is not.
\<close>

theorem exchange_scores_identity_not_equality:
  "py_eq (Allocated a ''all_scores'') (Interned ''all_scores'')
   \<and> exchange_particles_of (Allocated a ''all_scores'')
   \<and> \<not> exchange_scores_of (Allocated a ''all_scores'')"
  by (simp add: py_eq_def exchange_particles_of_iff exchange_scores_of_def)

section \<open>The shard partition\<close>

lemma py_slice_nth:
  assumes "b \<le> length xs"
  shows "py_slice xs a b = map ((!) xs) [a..<b]"
proof -
  have "take b xs = take b (map ((!) xs) [0..<length xs])"
    by (simp only: map_nth)
  also have "\<dots> = map ((!) xs) [0..<b]"
    using assms by (simp add: take_map)
  finally show ?thesis
    by (simp add: py_slice_def drop_map)
qed

lemma shard_end_le:
  assumes "shard < num_shards"
  shows "(n div num_shards) * (shard + 1) \<le> (n::nat)"
proof -
  have "shard + 1 \<le> num_shards"
    using assms by simp
  then have "(n div num_shards) * (shard + 1) \<le> (n div num_shards) * num_shards"
    by (rule mult_le_mono2)
  also have "\<dots> \<le> n" by simp
  finally show ?thesis .
qed

lemma shard_indices_eq:
  assumes "shard < num_shards"
  shows "shard_indices n num_shards shard
         = [shard * (n div num_shards) ..< (shard + 1) * (n div num_shards)]"
  using shard_end_le [OF assms, of n]
  by (simp add: shard_indices_def data_idx_range_def samples_per_shard_def
        min_absorb1 mult.commute)

lemma shard_rows_eq:
  assumes "shard < num_shards"
  shows "shard_rows rows num_shards shard
         = map ((!) rows) (shard_indices (length rows) num_shards shard)"
  using shard_end_le [OF assms, of "length rows"]
  by (simp add: shard_rows_def shard_indices_def data_idx_range_def samples_per_shard_def
        py_slice_nth min_absorb1)

lemma shard_indices_disjoint_lt:
  assumes "r < r'" "r' < num_shards"
  shows "set (shard_indices n num_shards r) \<inter> set (shard_indices n num_shards r') = {}"
proof -
  have "r + 1 \<le> r'"
    using assms(1) by simp
  then have "(r + 1) * (n div num_shards) \<le> r' * (n div num_shards)"
    by (rule mult_le_mono1)
  moreover have "r < num_shards" using assms by simp
  ultimately show ?thesis
    using assms(2) by (auto simp add: shard_indices_eq)
qed

lemma shard_indices_disjoint:
  assumes "r \<noteq> r'" "r < num_shards" "r' < num_shards"
  shows "set (shard_indices n num_shards r) \<inter> set (shard_indices n num_shards r') = {}"
proof (cases "r < r'")
  case True
  then show ?thesis using assms by (simp add: shard_indices_disjoint_lt)
next
  case False
  then have "r' < r" using assms(1) by simp
  then have "set (shard_indices n num_shards r') \<inter> set (shard_indices n num_shards r) = {}"
    using assms by (simp add: shard_indices_disjoint_lt)
  then show ?thesis by (simp add: Int_commute)
qed

lemma in_some_shard_iff:
  "(\<exists>s<num_shards. i \<in> set (shard_indices n num_shards s))
   \<longleftrightarrow> i < num_shards * (n div num_shards)"
proof
  assume "\<exists>s<num_shards. i \<in> set (shard_indices n num_shards s)"
  then obtain s where s: "s < num_shards" "i < (s + 1) * (n div num_shards)"
    by (auto simp add: shard_indices_eq)
  have "s + 1 \<le> num_shards"
    using s(1) by simp
  then have "(s + 1) * (n div num_shards) \<le> num_shards * (n div num_shards)"
    by (rule mult_le_mono1)
  with s(2) show "i < num_shards * (n div num_shards)" by simp
next
  assume i: "i < num_shards * (n div num_shards)"
  then have q: "0 < n div num_shards" by (cases "n div num_shards = 0") simp_all
  let ?s = "i div (n div num_shards)"
  have "?s < num_shards"
    using i q by (simp add: less_mult_imp_div_less mult.commute)
  moreover have "?s * (n div num_shards) \<le> i" by simp
  moreover have "i < (?s + 1) * (n div num_shards)"
    using q by (metis add.commute dividend_less_times_div mult.commute mult_Suc plus_1_eq_Suc)
  ultimately show "\<exists>s<num_shards. i \<in> set (shard_indices n num_shards s)"
    by (auto simp add: shard_indices_eq)
qed

lemma uncovered_rows:
  "{i. i < n \<and> (\<forall>s<num_shards. i \<notin> set (shard_indices n num_shards s))}
   = {num_shards * (n div num_shards) ..< n}"
proof -
  have "(\<forall>s<num_shards. i \<notin> set (shard_indices n num_shards s))
        \<longleftrightarrow> num_shards * (n div num_shards) \<le> i" for i
    using in_some_shard_iff [of num_shards i n] by (simp add: not_less [symmetric]) blast
  then show ?thesis by auto
qed

lemma card_uncovered: "card {num_shards * (n div num_shards) ..< n} = n mod num_shards"
  by (simp add: minus_mult_div_eq_mod)

text \<open>
  C3. For a shard count of at least one and a data set of \<open>length rows\<close> rows, the shard
  of a rank \<open>r\<close> below the shard count is the half-open range from
  \<open>r * (N div num_shards)\<close> to \<open>(r + 1) * (N div num_shards)\<close>: its rows are the rows at
  these indices, there are exactly \<open>N div num_shards\<close> of them, it shares no index with
  the shard of any other rank below the shard count, and the rows in no shard are the
  trailing \<open>N mod num_shards\<close> ones.
\<close>

theorem shard_partition:
  assumes "1 \<le> num_shards" and "r < num_shards"
  shows "data_idx_range (samples_per_shard (length rows) num_shards) r
           = (r * (length rows div num_shards), (r + 1) * (length rows div num_shards))
       \<and> shard_rows rows num_shards r
           = map ((!) rows) [r * (length rows div num_shards)
                              ..< (r + 1) * (length rows div num_shards)]
       \<and> length (shard_rows rows num_shards r) = length rows div num_shards
       \<and> (\<forall>r'. r' < num_shards \<and> r' \<noteq> r \<longrightarrow>
             set (shard_indices (length rows) num_shards r)
               \<inter> set (shard_indices (length rows) num_shards r') = {})
       \<and> {i. i < length rows
              \<and> (\<forall>s<num_shards. i \<notin> set (shard_indices (length rows) num_shards s))}
           = {num_shards * (length rows div num_shards) ..< length rows}
       \<and> card {num_shards * (length rows div num_shards) ..< length rows}
           = length rows mod num_shards"
proof -
  have 1: "data_idx_range (samples_per_shard (length rows) num_shards) r
           = (r * (length rows div num_shards), (r + 1) * (length rows div num_shards))"
    by (simp add: data_idx_range_def samples_per_shard_def mult.commute)
  have 2: "shard_rows rows num_shards r
           = map ((!) rows) [r * (length rows div num_shards)
                              ..< (r + 1) * (length rows div num_shards)]"
    using assms(2) by (simp add: shard_rows_eq shard_indices_eq)
  have 3: "length (shard_rows rows num_shards r) = length rows div num_shards"
    by (simp add: 2)
  have 4: "\<forall>r'. r' < num_shards \<and> r' \<noteq> r \<longrightarrow>
             set (shard_indices (length rows) num_shards r)
               \<inter> set (shard_indices (length rows) num_shards r') = {}"
    using assms(2) by (simp add: shard_indices_disjoint)
  show ?thesis
    using 1 2 3 4 uncovered_rows [of "length rows" num_shards]
      card_uncovered [of num_shards "length rows"]
    by (intro conjI)
qed

text \<open>
  Seven rows: in three shards the shards of ranks 0 and 2 are rows 0, 1 and rows 4, 5, and
  row 6 is in no shard; in one shard, rank 0 holds all seven.
\<close>

theorem shard_partition_witness:
  "(1::nat) \<le> 3 \<and> (0::nat) < 3 \<and> (2::nat) < 3 \<and> (2::nat) \<noteq> 0
   \<and> data_idx_range (samples_per_shard 7 3) 0 = (0, 2)
   \<and> shard_rows [10, 11, 12, 13, 14, 15, 16 :: nat] 3 0 = [10, 11]
   \<and> length (shard_rows [10, 11, 12, 13, 14, 15, 16 :: nat] 3 0) = 2
   \<and> set (shard_indices 7 3 0) \<inter> set (shard_indices 7 3 2) = {}
   \<and> card {6 ..< 7 :: nat} = 1
   \<and> (1::nat) \<le> 1 \<and> (0::nat) < 1
   \<and> data_idx_range (samples_per_shard 7 1) 0 = (0, 7)
   \<and> shard_rows [10, 11, 12, 13, 14, 15, 16 :: nat] 1 0 = [10, 11, 12, 13, 14, 15, 16]
   \<and> card {7 ..< 7 :: nat} = 0"
proof -
  let ?rows = "[10, 11, 12, 13, 14, 15, 16 :: nat]"
  have len: "length ?rows = 7"
    by simp
  have q3: "(7::nat) div 3 = 2" and q1: "(7::nat) div 1 = 7"
    by simp_all
  have rows3: "shard_rows ?rows 3 0 = [10, 11]"
    by (simp add: shard_rows_def data_idx_range_def samples_per_shard_def py_slice_def)
  have rows1: "shard_rows ?rows 1 0 = ?rows"
    by (simp add: shard_rows_def data_idx_range_def samples_per_shard_def py_slice_def)
  have three: "data_idx_range (samples_per_shard 7 3) 0 = (0, 2)
       \<and> length (shard_rows ?rows 3 0) = 2
       \<and> set (shard_indices 7 3 0) \<inter> set (shard_indices 7 3 2) = {}
       \<and> card {6 ..< 7 :: nat} = 1"
    using shard_partition [of 3 0 ?rows]
    unfolding len q3 rows3
    by simp
  have one: "data_idx_range (samples_per_shard 7 1) 0 = (0, 7)
       \<and> card {7 ..< 7 :: nat} = 0"
    using shard_partition [of 1 0 ?rows]
    unfolding len q1 rows1
    by simp
  show ?thesis
    using three one rows3 rows1 by simp
qed

section \<open>The kernel\<close>

lemma sqdist_nonneg: "0 \<le> sqdist x y"
  unfolding sqdist_def by (rule sum_list_nonneg) auto

lemma dist_p2_power2: "(dist_p2 x y)\<^sup>2 = sqdist x y"
  using sqdist_nonneg [of x y] by (simp add: dist_p2_def sqdist_def)

lemma kernel_sqdist: "kernel_fn x y = exp (- sqdist x y)"
  by (simp add: kernel_fn_def dist_p2_power2)

lemma sqdist_commute: "sqdist x y = sqdist y x"
proof (induction x arbitrary: y)
  case Nil
  then show ?case by (simp add: sqdist_def)
next
  case (Cons a x)
  then show ?case
    by (cases y) (simp_all add: sqdist_def power2_commute)
qed

lemma sqdist_same: "sqdist x x = 0"
  by (induction x) (simp_all add: sqdist_def)

text \<open>
  C5. The kernel is symmetric and is 1 where both arguments coincide. It takes no
  bandwidth, so this is its value at every bandwidth the step is given.
\<close>

theorem kernel_symmetric:
  "kernel_fn x y = kernel_fn y x \<and> kernel_fn x x = 1"
  by (simp add: kernel_sqdist sqdist_commute [of x y] sqdist_same)

section \<open>The range of the kernel in 32-bit floats\<close>

lemma rne_of_int: "rne (of_int n) = n"
  by (simp add: rne_def)

lemma rne_ge: "of_int n \<le> v \<Longrightarrow> n \<le> rne v"
proof -
  assume "of_int n \<le> v"
  then have "n \<le> \<lfloor>v\<rfloor>" by (simp add: le_floor_iff)
  then show ?thesis by (simp add: rne_def Let_def)
qed

lemma rne_le:
  assumes "v \<le> of_int n"
  shows "rne v \<le> n"
proof (cases "v = of_int n")
  case True
  then show ?thesis by (simp add: rne_of_int)
next
  case False
  then have "v < of_int n" using assms by simp
  then have "\<lfloor>v\<rfloor> < n" by (simp add: floor_less_iff)
  then show ?thesis by (simp add: rne_def Let_def)
qed

lemma ulp_pos: "0 < ulp v"
  by (simp add: ulp_def)

lemma round32_nonneg:
  assumes "0 \<le> v"
  shows "round32 v = PlusInf \<or> (\<exists>r. round32 v = Finite r \<and> 0 \<le> r)"
proof -
  have "0 \<le> v / ulp v" using assms ulp_pos [of v] by simp
  then have "0 \<le> rne (v / ulp v)" using rne_ge [of 0 "v / ulp v"] by simp
  then have "0 \<le> of_int (rne (v / ulp v)) * ulp v"
    using ulp_pos [of v] by simp
  then show ?thesis
    by (simp add: round32_def Let_def)
qed

lemma round32_nonpos:
  assumes "v \<le> 0"
  shows "round32 v = MinusInf \<or> (\<exists>r. round32 v = Finite r \<and> r \<le> 0)"
proof -
  have "v / ulp v \<le> 0" using assms ulp_pos [of v] by (simp add: divide_nonpos_pos)
  then have "rne (v / ulp v) \<le> 0" using rne_le [of "v / ulp v" 0] by simp
  then have "of_int (rne (v / ulp v)) * ulp v \<le> 0"
    using ulp_pos [of v] by (simp add: mult_nonpos_nonneg)
  then show ?thesis
    by (auto simp add: round32_def Let_def)
qed


lemma expo_le_0:
  assumes "0 \<le> v" and "v \<le> 1"
  shows "expo v \<le> 0"
proof (cases "v = 0")
  case True
  then show ?thesis by (simp add: expo_def)
next
  case False
  then have "0 < v" using assms(1) by simp
  then have "log 2 v \<le> 0" using assms(2) by simp
  then have "\<lfloor>log 2 \<bar>v\<bar>\<rfloor> \<le> 0"
    using \<open>0 < v\<close> by (simp add: floor_le_iff)
  then show ?thesis using False by (simp add: expo_def)
qed

lemma round32_unit:
  assumes "0 \<le> v" and "v \<le> 1"
  shows "\<exists>r. round32 v = Finite r \<and> 0 \<le> r \<and> r \<le> 1"
proof -
  define n where "n = nat (23 - expo v)"
  have e: "expo v \<le> 0" using assms by (rule expo_le_0)
  then have n: "real n = 23 - of_int (expo v)" by (simp add: n_def)
  have "(2::real) ^ n = 2 powr real n" by (simp add: powr_realpow)
  then have "(2::real) ^ n * ulp v = 2 powr (real n + (of_int (expo v) - 23))"
    by (simp add: ulp_def powr_add)
  then have one: "(2::real) ^ n * ulp v = 1" by (simp add: n)
  have "v / ulp v \<le> 1 / ulp v"
    using assms(2) ulp_pos [of v] by (simp add: divide_right_mono)
  also have "1 / ulp v = of_int (2 ^ n)"
    using one ulp_pos [of v] by (simp add: field_simps)
  finally have "rne (v / ulp v) \<le> 2 ^ n" by (rule rne_le)
  then have "of_int (rne (v / ulp v)) \<le> (2::real) ^ n"
    by (metis of_int_le_iff of_int_numeral of_int_power)
  then have "of_int (rne (v / ulp v)) * ulp v \<le> 2 ^ n * ulp v"
    using ulp_pos [of v] by (simp add: mult_right_mono)
  then have le: "of_int (rne (v / ulp v)) * ulp v \<le> 1" using one by simp
  have "0 \<le> v / ulp v" using assms(1) ulp_pos [of v] by simp
  then have "0 \<le> rne (v / ulp v)" using rne_ge [of 0 "v / ulp v"] by simp
  then have ge: "0 \<le> of_int (rne (v / ulp v)) * ulp v"
    using ulp_pos [of v] by simp
  have "\<not> (2::real) ^ 128 \<le> of_int (rne (v / ulp v)) * ulp v" using le by simp
  moreover have "\<not> of_int (rne (v / ulp v)) * ulp v \<le> - ((2::real) ^ 128)" using ge by simp
  ultimately show ?thesis
    using le ge by (simp add: round32_def Let_def)
qed

lemma round32_underflow:
  assumes "0 \<le> v" and "v * 2 ^ 150 < 1"
  shows "round32 v = Finite 0"
proof -
  have e: "expo v = - 126"
  proof (cases "v = 0")
    case True
    then show ?thesis by (simp add: expo_def)
  next
    case False
    then have pos: "0 < v" using assms(1) by simp
    have "v < 1 / 2 ^ 150" using assms(2) by (simp add: field_simps)
    also have "\<dots> \<le> 2 powr (- 126)"
      by (simp add: powr_neg_numeral)
    finally have "v < 2 powr (- 126)" .
    then have "log 2 v < - 126"
      using pos by (simp add: log_less_iff)
    then have "\<lfloor>log 2 \<bar>v\<bar>\<rfloor> < - 126"
      using pos by (simp add: floor_less_iff)
    then show ?thesis using False by (simp add: expo_def)
  qed
  have u: "ulp v = 1 / 2 ^ 149"
    by (simp add: ulp_def e powr_neg_numeral)
  have "v / ulp v = v * 2 ^ 149" by (simp add: u)
  moreover have "v * 2 ^ 149 < 1 / 2" using assms(2) by simp
  moreover have "0 \<le> v * 2 ^ 149" using assms(1) by simp
  ultimately have "0 \<le> v / ulp v" "v / ulp v < 1 / 2" by simp_all
  then have f: "\<lfloor>v / ulp v\<rfloor> = 0" by linarith
  have "rne (v / ulp v) = 0"
    using \<open>v / ulp v < 1 / 2\<close> by (simp add: rne_def f)
  then show ?thesis by (simp add: round32_def)
qed


lemma round32_exact:
  assumes v: "v = of_int m * 2 powr (of_int e - 23)"
    and m: "2 ^ 23 \<le> \<bar>m\<bar>" "\<bar>m\<bar> < 2 ^ 24"
    and e: "- 126 \<le> e" "e \<le> 127"
  shows "round32 v = Finite v"
proof -
  let ?u = "2 powr (of_int e - 23) :: real"
  have u: "0 < ?u" by simp
  have av: "\<bar>v\<bar> = of_int \<bar>m\<bar> * ?u"
    by (simp add: v abs_mult)
  have m': "(2::real) ^ 23 \<le> of_int \<bar>m\<bar>" "of_int \<bar>m\<bar> < (2::real) ^ 24"
    using m by (metis of_int_le_iff of_int_numeral of_int_power,
                metis of_int_less_iff of_int_numeral of_int_power)
  have lo: "2 powr (of_int e) \<le> \<bar>v\<bar>"
  proof -
    have "2 powr (of_int e) = 2 powr (23 + (of_int e - 23))" by simp
    also have "\<dots> = 2 powr 23 * ?u" by (rule powr_add)
    also have "\<dots> = 2 ^ 23 * ?u" by simp
    also have "\<dots> \<le> of_int \<bar>m\<bar> * ?u"
      using m'(1) u by (simp add: mult_right_mono)
    finally show ?thesis by (simp add: av)
  qed
  have hi: "\<bar>v\<bar> < 2 powr (of_int (e + 1))"
  proof -
    have "\<bar>v\<bar> < 2 ^ 24 * ?u"
      using m'(2) u by (simp add: av mult_strict_right_mono)
    also have "\<dots> = 2 powr 24 * ?u" by simp
    also have "\<dots> = 2 powr (24 + (of_int e - 23))" by (rule powr_add [symmetric])
    also have "\<dots> = 2 powr (of_int (e + 1))" by (simp add: algebra_simps)
    finally show ?thesis .
  qed
  have "(0::real) < 2 powr (of_int e)" by simp
  then have pos: "0 < \<bar>v\<bar>" using lo by linarith
  have "\<lfloor>log 2 \<bar>v\<bar>\<rfloor> = e"
    using pos lo hi by (simp add: floor_log_eq_powr_iff)
  then have ex: "expo v = e"
    using pos e(1) by (simp add: expo_def)
  have ulp: "ulp v = ?u" by (simp add: ulp_def ex)
  have "v / ulp v = of_int m" unfolding ulp using u by (simp add: v)
  then have "of_int (rne (v / ulp v)) * ulp v = of_int m * ?u"
    unfolding ulp by (simp add: rne_of_int)
  then have r: "of_int (rne (v / ulp v)) * ulp v = v"
    by (simp only: v)
  have "of_int (e + 1) \<le> (128::real)"
    using e(2) by simp
  then have "2 powr (of_int (e + 1)) \<le> (2::real) powr 128"
    by (rule powr_mono) simp
  also have "(2::real) powr 128 = 2 ^ 128" by simp
  finally have "\<bar>v\<bar> < 2 ^ 128" using hi by simp
  then show ?thesis
    unfolding round32_def Let_def r by (simp add: abs_less_iff)
qed

lemma round32_below_one:
  assumes "1 - 1 / 2 ^ 25 < v" and "v < 1"
  shows "round32 v = Finite 1"
proof -
  have pos: "0 < v" using assms(1) by simp
  have "2 powr (of_int (- 1)) \<le> v"
    using assms(1) by (simp add: powr_minus)
  moreover have "v < 2 powr (of_int (- 1 + 1))"
    using assms(2) by simp
  ultimately have "\<lfloor>log 2 v\<rfloor> = - 1"
    using pos floor_log_eq_powr_iff [of v 2 "- 1"] by simp
  then have ex: "expo v = - 1" using pos by (simp add: expo_def)
  have u: "ulp v = 1 / 2 ^ 24"
    by (simp add: ulp_def ex powr_neg_numeral)
  define q where "q = v * 2 ^ 24"
  have q: "16777216 - 1 / 2 < q" "q < 16777216"
    using assms by (simp_all add: q_def field_simps)
  then have f: "\<lfloor>q\<rfloor> = 16777215" by linarith
  have "1 / 2 < q - of_int \<lfloor>q\<rfloor>" using q(1) by (simp add: f)
  then have "rne q = 16777216"
    by (simp add: rne_def Let_def f)
  moreover have "v / ulp v = q" by (simp add: u q_def)
  ultimately show ?thesis
    by (simp add: round32_def u)
qed

lemma nonneg_round32: "0 \<le> v \<Longrightarrow> nonneg (round32 v)"
  using round32_nonneg [of v] by auto

lemma not_nan_round32: "not_nan (round32 v)"
  by (simp add: round32_def Let_def)

lemma not_nan_fsub: "is_finite a \<Longrightarrow> is_finite b \<Longrightarrow> not_nan (fsub a b)"
  by (cases a; cases b) (simp_all add: not_nan_round32)

lemma nonneg_square: "not_nan c \<Longrightarrow> nonneg (fmul c c)"
  by (cases c) (simp_all add: nonneg_round32)

lemma nonneg_fadd: "nonneg a \<Longrightarrow> nonneg b \<Longrightarrow> nonneg (fadd a b)"
  by (cases a; cases b) (simp_all add: nonneg_round32)

lemma nonneg_foldl: "nonneg a \<Longrightarrow> list_all nonneg cs \<Longrightarrow> nonneg (foldl fadd a cs)"
  by (induction cs arbitrary: a) (simp_all add: nonneg_fadd)

lemma nonneg_fsqrt: "nonneg a \<Longrightarrow> nonneg (fsqrt a)"
  by (cases a) (simp_all add: nonneg_round32)

lemma nonneg_not_nan: "nonneg a \<Longrightarrow> not_nan a"
  by (cases a) simp_all

lemma not_nan_diffs:
  assumes "list_all is_finite x" and "list_all is_finite y"
  shows "list_all not_nan (map2 fsub x y)"
  using assms
proof (induction x arbitrary: y)
  case Nil
  then show ?case by simp
next
  case (Cons a x)
  show ?case
  proof (cases y)
    case Nil
    then show ?thesis by simp
  next
    case (Cons b y')
    then show ?thesis
      using Cons.prems Cons.IH [of y'] by (simp add: not_nan_fsub)
  qed
qed

lemma nonneg_dist_f32:
  assumes "list_all is_finite x" and "list_all is_finite y"
  shows "nonneg (dist_f32 x y)"
proof -
  have "list_all not_nan (map2 fsub x y)"
    using assms by (rule not_nan_diffs)
  then have "list_all nonneg (map (\<lambda>c. fmul c c) (map2 fsub x y))"
    by (simp add: list_all_iff nonneg_square)
  then show ?thesis
    by (simp add: dist_f32_def nonneg_fsqrt nonneg_foldl)
qed

lemma nonpos_round32: "v \<le> 0 \<Longrightarrow> nonpos (round32 v)"
  using round32_nonpos [of v] by auto

lemma nonpos_negate: "nonneg a \<Longrightarrow> nonpos (fmul (Finite (- 1)) a)"
  by (cases a) (simp_all add: nonpos_round32)

lemma fexp_nonpos:
  assumes "nonpos a"
  shows "\<exists>k. fexp a = Finite k \<and> 0 \<le> k \<and> k \<le> 1"
proof (cases a)
  case (Finite r)
  then have "r \<le> 0" using assms by simp
  then have "0 \<le> exp r" "exp r \<le> 1" by simp_all
  then show ?thesis using Finite by (simp add: round32_unit)
next
  case MinusInf
  then show ?thesis by simp
qed (use assms in simp_all)

lemma round32_0: "round32 0 = Finite 0"
  using round32_underflow [of 0] by simp

lemma round32_1: "round32 1 = Finite 1"
  using round32_exact [of 1 8388608 0] by (simp add: powr_neg_numeral)

lemma foldl_fadd_zeros:
  "list_all (\<lambda>c. c = Finite 0) cs \<Longrightarrow> foldl fadd (Finite 0) cs = Finite 0"
  by (induction cs) (simp_all add: round32_0)

lemma diffs_same:
  "list_all is_finite x \<Longrightarrow> list_all (\<lambda>c. c = Finite 0) (map (\<lambda>c. fmul c c) (map2 fsub x x))"
proof (induction x)
  case Nil
  then show ?case by simp
next
  case (Cons a x)
  then obtain r where "a = Finite r" by (cases a) simp_all
  then show ?case using Cons by (simp add: round32_0)
qed

lemma dist_f32_same:
  assumes "list_all is_finite x"
  shows "dist_f32 x x = Finite 0"
proof -
  have "foldl fadd (Finite 0) (map (\<lambda>c. fmul c c) (map2 fsub x x)) = Finite 0"
    using assms by (intro foldl_fadd_zeros diffs_same)
  then have "dist_f32 x x = fsqrt (Finite 0)"
    by (simp only: dist_f32_def)
  then show ?thesis by (simp add: round32_0)
qed

text \<open>
  C10, amended. For every pair of particle positions \<open>x\<close> and \<open>y\<close> with finite entries
  the kernel value is a finite number in the closed interval from 0 to 1: it is never
  negative, it is bounded above by 1, and it is 1 when both arguments coincide.
\<close>

theorem kernel_f32_unit_interval:
  assumes "list_all is_finite x" and "list_all is_finite y"
  shows "(\<exists>k. kernel_f32 x y = Finite k \<and> 0 \<le> k \<and> k \<le> 1)
         \<and> kernel_f32 x x = Finite 1"
proof -
  have "nonneg (dist_f32 x y)"
    using assms by (rule nonneg_dist_f32)
  then have "nonneg (fmul (dist_f32 x y) (dist_f32 x y))"
    by (simp add: nonneg_square nonneg_not_nan)
  then have "nonpos (fmul (Finite (- 1)) (fmul (dist_f32 x y) (dist_f32 x y)))"
    by (rule nonpos_negate)
  then have 1: "\<exists>k. kernel_f32 x y = Finite k \<and> 0 \<le> k \<and> k \<le> 1"
    unfolding kernel_f32_def by (rule fexp_nonpos)
  have 2: "kernel_f32 x x = Finite 1"
    using assms(1) by (simp add: kernel_f32_def dist_f32_same round32_0 round32_1)
  show ?thesis using 1 2 by simp
qed

lemma exp_121: "exp (- 121) * 2 ^ 150 < (1::real)"
proof -
  have "(5 / 2 :: real) \<le> exp 1"
    using exp_lower_Taylor_quadratic [of "1::real"] by simp
  then have "(5 / 2 :: real) ^ 121 \<le> exp 1 ^ 121"
    by (intro power_mono) simp_all
  also have "exp (1::real) ^ 121 = exp 121"
    using exp_of_nat_mult [of 121 "1::real"] by simp
  finally have "(5 / 2 :: real) ^ 121 \<le> exp 121" .
  moreover have "(2::real) ^ 150 < (5 / 2) ^ 121"
    by (simp add: power_divide)
  ultimately have "(2::real) ^ 150 < exp 121" by simp
  then have "2 ^ 150 / exp 121 < (1::real)" by simp
  then show ?thesis by (simp add: exp_minus field_simps)
qed

lemma round32_11: "round32 11 = Finite 11" "round32 (- 11) = Finite (- 11)"
  using round32_exact [of 11 11534336 3] round32_exact [of "- 11" "- 11534336" 3]
  by (simp_all add: powr_neg_numeral)

lemma round32_121: "round32 121 = Finite 121" "round32 (- 121) = Finite (- 121)"
  using round32_exact [of 121 15859712 6] round32_exact [of "- 121" "- 15859712" 6]
  by (simp_all add: powr_neg_numeral)

lemma sqrt_121: "sqrt 121 = 11"
  using real_sqrt_abs [of 11] by simp

lemma kernel_f32_underflow:
  "kernel_f32 [Finite 0, Finite 0, Finite 0] [Finite 11, Finite 0, Finite 0] = Finite 0"
  using round32_underflow [OF _ exp_121]
  by (simp add: kernel_f32_def dist_f32_def round32_0 round32_11 round32_121 sqrt_121)


lemma round32_2m13: "round32 (1 / 8192) = Finite (1 / 8192)"
  "round32 (- (1 / 8192)) = Finite (- (1 / 8192))"
  using round32_exact [of "1 / 8192" 8388608 "- 13"]
    round32_exact [of "- (1 / 8192)" "- 8388608" "- 13"]
  by (simp_all add: powr_neg_numeral)

lemma round32_2m26: "round32 (1 / 67108864) = Finite (1 / 67108864)"
  "round32 (- (1 / 67108864)) = Finite (- (1 / 67108864))"
  using round32_exact [of "1 / 67108864" 8388608 "- 26"]
    round32_exact [of "- (1 / 67108864)" "- 8388608" "- 26"]
  by (simp_all add: powr_neg_numeral)

lemma sqrt_2m26: "sqrt (1 / 67108864) = 1 / 8192"
  using real_sqrt_abs [of "1 / 8192"] by (simp add: power2_eq_square)

lemma exp_2m26: "1 - 1 / 2 ^ 25 < exp (- (1 / 67108864) :: real)"
  "exp (- (1 / 67108864) :: real) < 1"
proof -
  have "1 + (- (1 / 67108864)) \<le> exp (- (1 / 67108864) :: real)"
    by (rule exp_ge_add_one_self)
  then show "1 - 1 / 2 ^ 25 < exp (- (1 / 67108864) :: real)" by simp
  show "exp (- (1 / 67108864) :: real) < 1" by simp
qed

lemma kernel_f32_rounds_to_one:
  "kernel_f32 [Finite 0, Finite 0, Finite 0] [Finite (1 / 8192), Finite 0, Finite 0] = Finite 1"
  using round32_below_one [OF exp_2m26]
  by (simp add: kernel_f32_def dist_f32_def round32_0 round32_2m13 round32_2m26 sqrt_2m26)

text \<open>
  C10. The claim: the kernel value is never zero, and is 1 exactly when \<open>x = y\<close>. At
  distance 11 the exponential underflows and the kernel value is 0; for two distinct
  particles at distance \<open>1 / 8192\<close> it rounds to 1.
\<close>

theorem kernel_f32_zero_and_one:
  "kernel_f32 [Finite 0, Finite 0, Finite 0] [Finite 11, Finite 0, Finite 0] = Finite 0
   \<and> kernel_f32 [Finite 0, Finite 0, Finite 0] [Finite (1 / 8192), Finite 0, Finite 0]
       = Finite 1
   \<and> [Finite 0, Finite 0, Finite 0] \<noteq> [Finite (1 / 8192), Finite 0, Finite 0]"
  by (simp add: kernel_f32_underflow kernel_f32_rounds_to_one)

theorem kernel_f32_unit_interval_witness:
  "list_all is_finite [Finite 0, Finite 0, Finite 0]
   \<and> list_all is_finite [Finite 11, Finite 0, Finite 0]
   \<and> (\<exists>k. kernel_f32 [Finite 0, Finite 0, Finite 0] [Finite 11, Finite 0, Finite 0] = Finite k
            \<and> 0 \<le> k \<and> k \<le> 1)
   \<and> kernel_f32 [Finite 0, Finite 0, Finite 0] [Finite 0, Finite 0, Finite 0] = Finite 1"
  using kernel_f32_unit_interval
    [of "[Finite 0, Finite 0, Finite 0]" "[Finite 11, Finite 0, Finite 0]"]
  by simp

text \<open>
  Symmetry, which holds of the kernel over the reals, holds in the floats as well:
  rounding commutes with negation, and a difference enters only through its square.
\<close>

lemma rne_minus: "rne (- v) = - rne v"
proof (cases "v = of_int \<lfloor>v\<rfloor>")
  case True
  then have "rne v = \<lfloor>v\<rfloor>" by (metis rne_of_int)
  moreover have "rne (- v) = - \<lfloor>v\<rfloor>"
    using True by (metis of_int_minus rne_of_int)
  ultimately show ?thesis by simp
next
  case False
  then have f: "\<lfloor>- v\<rfloor> = - \<lfloor>v\<rfloor> - 1"
    by linarith
  have t: "- v - of_int \<lfloor>- v\<rfloor> = 1 - (v - of_int \<lfloor>v\<rfloor>)"
    by (simp add: f)
  show ?thesis
    unfolding rne_def Let_def t
    by (auto simp add: f)
qed

lemma expo_minus: "expo (- v) = expo v"
  by (simp add: expo_def)

lemma ulp_minus: "ulp (- v) = ulp v"
  by (simp add: ulp_def expo_minus)

lemma round32_minus: "round32 (- v) = fneg (round32 v)"
proof -
  have "of_int (rne (- v / ulp (- v))) * ulp (- v) = - (of_int (rne (v / ulp v)) * ulp v)"
    by (simp add: ulp_minus rne_minus)
  then show ?thesis
    using ulp_pos [of v]
    by (auto simp add: round32_def Let_def)
qed

lemma fsub_swap: "fsub b a = fneg (fsub a b)"
proof (cases a; cases b)
  fix r q
  assume "a = Finite r" "b = Finite q"
  then show ?thesis
    using round32_minus [of "r - q"] by simp
qed simp_all

lemma fmul_fneg: "fmul (fneg c) (fneg c) = fmul c c"
  by (cases c) simp_all

lemma squares_swap:
  "map (\<lambda>c. fmul c c) (map2 fsub y x) = map (\<lambda>c. fmul c c) (map2 fsub x y)"
proof (induction x arbitrary: y)
  case Nil
  then show ?case by simp
next
  case (Cons a x)
  show ?case
  proof (cases y)
    case Nil
    then show ?thesis by simp
  next
    case (Cons b y')
    have "fmul (fsub b a) (fsub b a) = fmul (fsub a b) (fsub a b)"
      by (simp add: fsub_swap [of b a] fmul_fneg)
    then show ?thesis
      using Cons Cons.IH [of y'] by simp
  qed
qed

lemma dist_f32_symmetric: "dist_f32 x y = dist_f32 y x"
  unfolding dist_f32_def by (simp only: squares_swap [of x y])

lemma kernel_f32_symmetric: "kernel_f32 x y = kernel_f32 y x"
  unfolding kernel_f32_def by (simp only: dist_f32_symmetric [of x y])

section \<open>The step of the sampler\<close>


lemma length_vadd: "length (vadd u v) = min (length u) (length v)"
  by (simp add: vadd_def)

lemma length_smult: "length (smult c v) = length v"
  by (simp add: smult_def)

lemma length_vsum:
  assumes "\<forall>v \<in> set vs. n \<le> length v"
  shows "length (vsum n vs) = n"
  using assms by (induction vs) (simp_all add: vsum_def length_vadd)

lemma vadd_smult_0:
  assumes "length x \<le> length v"
  shows "vadd x (smult 0 v) = x"
  using assms
proof (induction x arbitrary: v)
  case Nil
  then show ?case by (simp add: vadd_def)
next
  case (Cons a x)
  then obtain b v' where v: "v = b # v'" by (cases v) auto
  have "vadd x (smult 0 v') = x"
    using Cons.prems v by (intro Cons.IH) simp
  then show ?case
    using v by (simp add: vadd_def smult_def)
qed

lemma length_phi_hat:
  assumes "\<forall>oy \<in> set ys. length x \<le> length (score_used nm s oy)
             \<and> length x \<le> length (nm_grad_kernel nm (snd oy) x h)"
  shows "length (phi_hat nm s ys h x) = length x"
  using assms by (simp add: phi_hat_def length_smult length_vsum length_vadd)

text \<open>
  C7. With a step size of 0 the step leaves every particle of the population as it is,
  for scores and kernel gradients of the particles' dimension \<open>n\<close>, at every bandwidth.
\<close>

theorem make_step_zero_stepsize:
  assumes "\<forall>r y. length (nm_score nm r y) = n"
    and "\<forall>y x. length (nm_grad_kernel nm y x h) = n"
    and "\<forall>x \<in> set (ds_particles s). length x = n"
  shows "ds_particles (make_step nm l s 0 h) = ds_particles s"
proof -
  have "vadd x (smult 0 (phi_hat nm s (comparison_population nm l s) h x)) = x"
    if "x \<in> set (ds_particles s)" for x
  proof -
    have "length x = n" using assms(3) that by simp
    then have "length (phi_hat nm s (comparison_population nm l s) h x) = length x"
      using assms(1,2) by (intro length_phi_hat) (simp add: score_used_def)
    then show ?thesis by (simp add: vadd_smult_0)
  qed
  then show ?thesis
    by (simp add: make_step_def map_idI)
qed


theorem make_step_zero_stepsize_witness:
  "ds_particles (make_step example_numerics 0
       (DistSampler 0 2 (\<lambda>x. logp (env_dataset example_env) 2 0 x) kernel_fn
          [[1, 2, 3], [4, 5, 6]] True True False) 0 step_bandwidth)
   = [[1, 2, 3], [4, 5, 6]]"
  using make_step_zero_stepsize [of example_numerics 3 step_bandwidth
      "DistSampler 0 2 (\<lambda>x. logp (env_dataset example_env) 2 0 x) kernel_fn
         [[1, 2, 3], [4, 5, 6]] True True False" 0]
  by (simp add: example_numerics_def DistSampler_def)

section \<open>A worker without peers\<close>


lemma comparison_population_alone:
  assumes "alone s"
  shows "comparison_population nm l s = map (Pair 0) (ds_particles s)"
  using assms by (simp add: comparison_population_def alone_def)

lemma score_used_alone:
  assumes "alone s"
  shows "score_used nm s (0, y) = nm_score nm 0 y"
  using assms by (simp add: score_used_def alone_def)

lemma phi_hat_alone:
  assumes "alone s"
  shows "phi_hat nm s (comparison_population nm l s) h x
         = smult (1 / real (length (ds_particles s)))
             (vsum (length x)
                (map (\<lambda>y. vadd (smult (nm_kernel nm y x h) (nm_score nm 0 y))
                                 (nm_grad_kernel nm y x h)) (ds_particles s)))"
  using assms
  by (simp add: phi_hat_def comparison_population_alone score_used_alone comp_def)

lemma make_step_alone:
  assumes "alone s"
  shows "ds_particles (make_step nm l s stepsize h)
         = map (\<lambda>x. vadd x (smult stepsize
                  (smult (1 / real (length (ds_particles s)))
                     (vsum (length x)
                        (map (\<lambda>y. vadd (smult (nm_kernel nm y x h) (nm_score nm 0 y))
                                         (nm_grad_kernel nm y x h)) (ds_particles s))))))
               (ds_particles s)"
  using assms by (simp add: make_step_def phi_hat_alone)

lemma alone_make_step: "alone (make_step nm l s stepsize h) = alone s"
  by (simp add: make_step_def alone_def)

lemma make_step_alone_cong:
  assumes "alone s" "alone s'" "ds_particles s = ds_particles s'" "same_numerics nm nm'"
  shows "ds_particles (make_step nm l s stepsize h) = ds_particles (make_step nm' l s' stepsize h)"
  using assms by (simp add: make_step_alone same_numerics_def)

lemma step_loop_alone_cong:
  assumes "alone s" "alone s'" "ds_particles s = ds_particles s'" "same_numerics nm nm'"
  shows "ds_particles (fst (step_loop nm stepsize n l (s, rows, k)))
           = ds_particles (fst (step_loop nm' stepsize n l (s', rows, k)))
       \<and> snd (step_loop nm stepsize n l (s, rows, k))
           = snd (step_loop nm' stepsize n l (s', rows, k))"
  using assms
proof (induction n arbitrary: l s s' rows k)
  case 0
  then show ?case by simp
next
  case (Suc n)
  have 1: "alone (make_step nm l s stepsize step_bandwidth)"
    using Suc.prems(1) by (simp add: alone_make_step)
  have 2: "alone (make_step nm' l s' stepsize step_bandwidth)"
    using Suc.prems(2) by (simp add: alone_make_step)
  have 3: "ds_particles (make_step nm l s stepsize step_bandwidth)
           = ds_particles (make_step nm' l s' stepsize step_bandwidth)"
    using Suc.prems by (rule make_step_alone_cong)
  show ?case
    using Suc.IH [OF 1 2 3 Suc.prems(4)] Suc.prems(3) by simp
qed


lemma make_step_alone_numerics:
  assumes "alone s" "same_numerics nm nm'"
  shows "make_step nm l s stepsize h = make_step nm' l s stepsize h"
  using assms by (simp add: make_step_def phi_hat_alone same_numerics_def)

lemma step_loop_alone_numerics:
  assumes "alone s" "same_numerics nm nm'"
  shows "step_loop nm stepsize n l (s, rows, k) = step_loop nm' stepsize n l (s, rows, k)"
  using assms
proof (induction n arbitrary: l s rows k)
  case 0
  then show ?case by simp
next
  case (Suc n)
  have "alone (make_step nm' l s stepsize step_bandwidth)"
    using Suc.prems(1) by (simp add: alone_make_step)
  then show ?case
    using Suc.IH [of "make_step nm' l s stepsize step_bandwidth"] Suc.prems
    by (simp add: make_step_alone_numerics [of s nm nm'])
qed

lemma alone_DistSampler_iff: "alone (DistSampler r n f k ps ep es w) \<longleftrightarrow> r = 0 \<and> n = 1"
  by (simp add: alone_def DistSampler_def)

lemma alone_DistSampler: "alone (DistSampler 0 1 f k ps ep es w)"
  by (simp add: alone_DistSampler_iff)

lemma ds_particles_DistSampler: "ds_particles (DistSampler r n f k ps ep es w) = ps"
  by (simp add: DistSampler_def)

lemma run_built:
  assumes "num_shards \<noteq> 0"
    and "init_particles (env_normal env) nparticles (manual_seed (int rank) (env_generator env))
         = Inr (particles, g')"
    and "step_loop (env_numerics env) stepsize (nat niter) 0
           (DistSampler rank num_shards (\<lambda>x. logp (env_dataset env) num_shards rank x) kernel_fn
              particles (exchange_particles_of exchange) (exchange_scores_of exchange) w, [], 0)
         = (s, rows, steps)"
  shows "run env rank num_shards nparticles niter stepsize exchange w
         = (let dist_sampler =
                  DistSampler rank num_shards (\<lambda>x. logp (env_dataset env) num_shards rank x)
                    kernel_fn particles (exchange_particles_of exchange)
                    (exchange_scores_of exchange) w
            in if niter \<le> 0 \<and> ds_particles s \<noteq> []
               then \<lparr>constructed = Some dist_sampler, steps_made = steps, data = rows,
                     final = Some s, raised = Some NameError\<rparr>
               else \<lparr>constructed = Some dist_sampler, steps_made = steps,
                     data = rows @ map (Pair niter) (ds_particles s),
                     final = Some s, raised = None\<rparr>)"
  unfolding run_def Let_def using assms by simp

text \<open>
  C8. A run as rank 0 of one shard saves the same rows (time step and particle), ends in
  the same population, makes the same number of steps and ends the same way for any
  two values of the exchange argument, for the same particle count, iteration count
  and step size.
\<close>

theorem single_shard_exchange_modes_agree:
  "data (run env 0 1 nparticles niter stepsize e1 w)
     = data (run env 0 1 nparticles niter stepsize e2 w)
   \<and> map_option ds_particles (final (run env 0 1 nparticles niter stepsize e1 w))
     = map_option ds_particles (final (run env 0 1 nparticles niter stepsize e2 w))
   \<and> steps_made (run env 0 1 nparticles niter stepsize e1 w)
     = steps_made (run env 0 1 nparticles niter stepsize e2 w)
   \<and> raised (run env 0 1 nparticles niter stepsize e1 w)
     = raised (run env 0 1 nparticles niter stepsize e2 w)"
proof (cases "init_particles (env_normal env) nparticles (manual_seed (int 0) (env_generator env))")
  case (Inl e)
  then show ?thesis by (simp add: run_def)
next
  case (Inr pg)
  obtain particles g' where pg: "pg = (particles, g')" by (cases pg)
  let ?f = "\<lambda>x. logp (env_dataset env) 1 0 x"
  let ?s1 = "DistSampler 0 1 ?f kernel_fn particles
               (exchange_particles_of e1) (exchange_scores_of e1) w"
  let ?s2 = "DistSampler 0 1 ?f kernel_fn particles
               (exchange_particles_of e2) (exchange_scores_of e2) w"
  obtain s1 rows1 k1 where r1:
    "step_loop (env_numerics env) stepsize (nat niter) 0 (?s1, [], 0) = (s1, rows1, k1)"
    by (cases "step_loop (env_numerics env) stepsize (nat niter) 0 (?s1, [], 0)")
  obtain s2 rows2 k2 where r2:
    "step_loop (env_numerics env) stepsize (nat niter) 0 (?s2, [], 0) = (s2, rows2, k2)"
    by (cases "step_loop (env_numerics env) stepsize (nat niter) 0 (?s2, [], 0)")
  have same: "same_numerics (env_numerics env) (env_numerics env)"
    by (simp add: same_numerics_def)
  have "ds_particles (fst (step_loop (env_numerics env) stepsize (nat niter) 0 (?s1, [], 0)))
           = ds_particles (fst (step_loop (env_numerics env) stepsize (nat niter) 0 (?s2, [], 0)))
       \<and> snd (step_loop (env_numerics env) stepsize (nat niter) 0 (?s1, [], 0))
           = snd (step_loop (env_numerics env) stepsize (nat niter) 0 (?s2, [], 0))"
    by (rule step_loop_alone_cong)
       (simp_all add: alone_DistSampler_iff ds_particles_DistSampler same)
  then have eq: "ds_particles s1 = ds_particles s2" "rows1 = rows2" "k1 = k2"
    unfolding r1 r2 by simp_all
  have init: "init_particles (env_normal env) nparticles (manual_seed (int 0) (env_generator env))
              = Inr (particles, g')"
    using Inr pg by simp
  have one: "(1::nat) \<noteq> 0" by simp
  show ?thesis
    unfolding run_built [OF one init r1] run_built [OF one init r2]
    by (simp add: Let_def eq)
qed

text \<open>
  C9. A run as rank 0 of one shard seeds the generator with its rank before it samples:
  its whole result, the rows saved at every iteration included, is the same whatever
  state the generator was in when the run started and whatever peers would broadcast.
\<close>

theorem single_shard_run_deterministic:
  "run (env\<lparr>env_generator := g,
            env_numerics := (env_numerics env)\<lparr>nm_received := rc\<rparr>\<rparr>)
       0 1 nparticles niter stepsize exchange w
   = run env 0 1 nparticles niter stepsize exchange w"
proof -
  let ?env' = "env\<lparr>env_generator := g, env_numerics := (env_numerics env)\<lparr>nm_received := rc\<rparr>\<rparr>"
  have seed: "manual_seed (int 0) (env_generator ?env') = manual_seed (int 0) (env_generator env)"
    by (simp add: manual_seed_def)
  show ?thesis
  proof (cases "init_particles (env_normal env) nparticles (manual_seed (int 0) (env_generator env))")
    case (Inl e)
    then show ?thesis by (simp add: run_def manual_seed_def)
  next
    case (Inr pg)
    obtain particles g' where pg: "pg = (particles, g')" by (cases pg)
    let ?s = "DistSampler 0 1 (\<lambda>x. logp (env_dataset env) 1 0 x) kernel_fn particles
                (exchange_particles_of exchange) (exchange_scores_of exchange) w"
    obtain s rows k where r:
      "step_loop (env_numerics env) stepsize (nat niter) 0 (?s, [], 0) = (s, rows, k)"
      by (cases "step_loop (env_numerics env) stepsize (nat niter) 0 (?s, [], 0)")
    have same: "same_numerics ((env_numerics env)\<lparr>nm_received := rc\<rparr>) (env_numerics env)"
      by (simp add: same_numerics_def)
    have sel: "env_dataset ?env' = env_dataset env" "env_normal ?env' = env_normal env"
      "env_numerics ?env' = (env_numerics env)\<lparr>nm_received := rc\<rparr>"
      by simp_all
    have loop: "step_loop ((env_numerics env)\<lparr>nm_received := rc\<rparr>) stepsize (nat niter) 0 (?s, [], 0)
          = step_loop (env_numerics env) stepsize (nat niter) 0 (?s, [], 0)"
      using alone_DistSampler same by (rule step_loop_alone_numerics)
    have r': "step_loop (env_numerics ?env') stepsize (nat niter) 0
                     (DistSampler 0 1 (\<lambda>x. logp (env_dataset ?env') 1 0 x) kernel_fn particles
                        (exchange_particles_of exchange) (exchange_scores_of exchange) w, [], 0)
                   = (s, rows, k)"
      unfolding sel loop by (rule r)
    have init: "init_particles (env_normal env) nparticles (manual_seed (int 0) (env_generator env))
                = Inr (particles, g')"
      using Inr pg by simp
    have init': "init_particles (env_normal ?env') nparticles
                   (manual_seed (int 0) (env_generator ?env')) = Inr (particles, g')"
      unfolding sel seed by (rule init)
    have one: "(1::nat) \<noteq> 0" by simp
    show ?thesis
      unfolding run_built [OF one init r] run_built [OF one init' r']
      by simp
  qed
qed


text \<open>
  \<^verbatim>\<open>cli\<close> with \<^verbatim>\<open>--nproc 1\<close> and one of the exchange choices is this run as rank 0 of one
  shard (lines 113 and 114).
\<close>

lemma cli_single_process:
  assumes "opt_nproc opts = 1" and "py_in (opt_exchange opts) exchange_choices"
  shows "cli env opts
         = Inr [run env 0 1 (opt_nparticles opts) (opt_niter opts) (opt_stepsize opts)
                  (opt_exchange opts) (opt_wasserstein opts)]"
  using assms by (simp add: cli_def)

text \<open>
  With a peer the flags do matter: as rank 0 of two shards, the step with particle
  exchange differs from the step without.
\<close>

lemma two_shards_exchange_matters:
  "ds_particles (make_step example_numerics 0
       (DistSampler 0 2 f kernel_fn [[0, 0, 0]] False False w) 1 step_bandwidth)
   \<noteq> ds_particles (make_step example_numerics 0
       (DistSampler 0 2 f kernel_fn [[0, 0, 0]] True False w) 1 step_bandwidth)"
  by (simp add: make_step_def phi_hat_def comparison_population_def score_used_def
        DistSampler_def example_numerics_def vadd_def smult_def vsum_def kernel_sqdist
        sqdist_def upt_rec)

end
